theory Spec2Isabelle
  imports Complex_Main "HOL-Library.Word" "HOL-Library.AList"
begin

section \<open>Data model of package physics\<close>

text \<open>
  The development follows \<^verbatim>\<open>physics/physics.go\<close>. Bodies live on the Go heap and
  are shared between the caller's list, the contact pairs and the colliding set, so the
  model keeps them in an explicit store indexed by address. A value of the interface type
  \<^verbatim>\<open>Body\<close> is either nil or a pointer to a body; \<^verbatim>\<open>float64\<close> values are carried as
  reals (they are only stored and handed on, no theorem depends on rounding).
\<close>

type_synonym addr = nat
type_synonym float64 = real

datatype Body = NilBody | BodyPtr addr

text \<open>The two run-time panics physics.go can raise by itself: a failed type assertion
  \<^verbatim>\<open>x.(*body)\<close> and a method call through a nil \<^verbatim>\<open>Shape\<close> interface.\<close>

datatype fault = InterfaceConversion | NilDereference

text \<open>
  Modelled from the spec: struct \<^verbatim>\<open>body\<close> is declared outside the available sources.
  The record has the fields physics.go reads and writes (\<^verbatim>\<open>bid\<close>, \<^verbatim>\<open>shape\<close>,
  \<^verbatim>\<open>movable\<close>, \<^verbatim>\<open>world\<close>, \<^verbatim>\<open>guess\<close>) and those the data model of the spec names:
  linear and angular velocity, accumulated force and torque, and the world inertia tensor.
  The types of package lin (transform, vector, matrix) and the shape are type parameters.
\<close>

record ('s, 't, 'v, 'm) body =
  bid :: "32 word"
  shape :: "'s option"
  movable :: bool
  world :: 't
  guess :: 't
  lvel :: 'v
  avel :: 'v
  lfor :: 'v
  afor :: 'v
  iitw :: 'm

text \<open>
  Modelled from the spec: struct \<^verbatim>\<open>contactPair\<close> is declared outside the available
  sources. It holds the two body pointers, the validity flag and the persistent manifold.
\<close>

record 'p contactPair =
  bodyA :: addr
  bodyB :: addr
  valid :: bool
  pocs :: "'p list"

type_synonym 'p pairs = "(64 word \<times> 'p contactPair) list"
type_synonym colliding = "(32 word \<times> addr) list"

text \<open>
  Struct \<^verbatim>\<open>physics\<close>. The Go maps are association lists with distinct keys, walked in
  list order. Field \<^verbatim>\<open>sol_timestep\<close> is \<^verbatim>\<open>px.sol.info.timestep\<close>; the collider's
  dispatch table is a parameter (below). The scratch boxes \<^verbatim>\<open>abA\<close>, \<^verbatim>\<open>abB\<close> are
  written before every read, so the bounding boxes are passed by value.
\<close>

record 'p physics =
  gravity :: float64
  sol_timestep :: float64
  overlapped :: "'p pairs"
  mf0 :: "'p list"

text \<open>The process: the package-level variable \<^verbatim>\<open>margin\<close>, the heap of bodies and the
  physics instances, each at its address.\<close>

record ('s, 't, 'v, 'm, 'p) state =
  margin :: float64
  heap :: "addr \<Rightarrow> ('s, 't, 'v, 'm) body"
  insts :: "addr \<Rightarrow> 'p physics"

definition margin_init :: float64 where
  "margin_init = 0.04"

text \<open>
  The methods of \<^verbatim>\<open>body\<close>, \<^verbatim>\<open>contactPair\<close>, \<^verbatim>\<open>Abox\<close>, the solver, the collision
  dispatch table and the ray cast table are defined in files that are not available; they
  are parameters of every function below. A body method acts on its receiver only. A
  collision algorithm reads the two bodies and the scratch manifold and returns the
  (possibly swapped) bodies, the contact points and the new contents of the scratch
  manifold. The dispatch table is total: the spec treats a missing registration as
  unreachable. The ray cast table is a Go map, hence partial.
\<close>

record ('s, 't, 'v, 'm, 'p, 'ab) ops =
  Type :: "'s \<Rightarrow> nat"
  applyGravity :: "float64 \<Rightarrow> ('s, 't, 'v, 'm) body \<Rightarrow> ('s, 't, 'v, 'm) body"
  integrateVelocities :: "float64 \<Rightarrow> ('s, 't, 'v, 'm) body \<Rightarrow> ('s, 't, 'v, 'm) body"
  applyDamping :: "float64 \<Rightarrow> ('s, 't, 'v, 'm) body \<Rightarrow> ('s, 't, 'v, 'm) body"
  updatePredictedTransform :: "float64 \<Rightarrow> ('s, 't, 'v, 'm) body \<Rightarrow> ('s, 't, 'v, 'm) body"
  updateWorldTransform :: "float64 \<Rightarrow> ('s, 't, 'v, 'm) body \<Rightarrow> ('s, 't, 'v, 'm) body"
  updateInertiaTensor :: "('s, 't, 'v, 'm) body \<Rightarrow> ('s, 't, 'v, 'm) body"
  pairId :: "('s, 't, 'v, 'm) body \<Rightarrow> ('s, 't, 'v, 'm) body \<Rightarrow> 64 word"
  predictedAabb :: "('s, 't, 'v, 'm) body \<Rightarrow> float64 \<Rightarrow> 'ab"
  worldAabb :: "('s, 't, 'v, 'm) body \<Rightarrow> 'ab"
  Overlaps :: "'ab \<Rightarrow> 'ab \<Rightarrow> bool"
  newContactPair :: "addr \<Rightarrow> addr \<Rightarrow> 'p contactPair"
  algorithms :: "nat \<Rightarrow> nat \<Rightarrow> (addr \<Rightarrow> ('s, 't, 'v, 'm) body) \<Rightarrow> Body \<Rightarrow> Body \<Rightarrow> 'p list
                   \<Rightarrow> Body \<times> Body \<times> 'p list \<times> 'p list"
  refreshContacts :: "'t \<Rightarrow> 't \<Rightarrow> 'p contactPair \<Rightarrow> 'p contactPair"
  mergeContacts :: "'p list \<Rightarrow> 'p contactPair \<Rightarrow> 'p contactPair"
  solve :: "float64 \<Rightarrow> colliding \<Rightarrow> 'p pairs \<Rightarrow> (addr \<Rightarrow> ('s, 't, 'v, 'm) body)
              \<Rightarrow> 'p pairs \<times> (addr \<Rightarrow> ('s, 't, 'v, 'm) body)"
  rayCastAlgorithms :: "nat \<rightharpoonup> ((addr \<Rightarrow> ('s, 't, 'v, 'm) body) \<Rightarrow> Body \<Rightarrow> Body
                          \<Rightarrow> fault + bool \<times> float64 \<times> float64 \<times> float64)"
  newManifold :: "'p list"
  newSolver :: float64

section \<open>The functions of physics.go\<close>

text \<open>The type assertion \<^verbatim>\<open>bb.(*body)\<close> panics on a nil interface.\<close>

definition assertBody :: "Body \<Rightarrow> fault + addr" where
  "assertBody bb = (case bb of NilBody \<Rightarrow> Inl InterfaceConversion | BodyPtr a \<Rightarrow> Inr a)"

text \<open>\<^verbatim>\<open>b.shape.Type()\<close> panics when the shape interface is nil.\<close>

definition shapeType :: "('s, 't, 'v, 'm, 'p, 'ab) ops \<Rightarrow> ('s, 't, 'v, 'm) body \<Rightarrow> fault + nat" where
  "shapeType E b = (case shape b of None \<Rightarrow> Inl NilDereference | Some s \<Rightarrow> Inr (Type E s))"

text \<open>Modelled from the spec: \<^verbatim>\<open>body.clearForces\<close> is defined outside the available
  sources; it resets the accumulated force and torque of its receiver.\<close>

definition body_clearForces :: "('s, 't, 'v::zero, 'm) body \<Rightarrow> ('s, 't, 'v, 'm) body" where
  "body_clearForces b = b\<lparr>lfor := 0, afor := 0\<rparr>"

definition newPhysics :: "('s, 't, 'v, 'm, 'p, 'ab) ops \<Rightarrow> 'p physics" where
  "newPhysics E = \<lparr>gravity = - 10, sol_timestep = newSolver E, overlapped = [], mf0 = newManifold E\<rparr>"



subsection \<open>predictBodyLocations\<close>

definition predict_body :: "('s, 't, 'v, 'm, 'p, 'ab) ops \<Rightarrow> float64 \<Rightarrow> float64
    \<Rightarrow> ('s, 't, 'v, 'm) body \<Rightarrow> ('s, 't, 'v, 'm) body" where
  "predict_body E g dt b0 =
     (let b = b0\<lparr>guess := world b0\<rparr> in
      if movable b
      then updatePredictedTransform E dt (applyDamping E dt (integrateVelocities E dt (applyGravity E g b)))
      else b)"

fun predictBodyLocations_loop :: "('s, 't, 'v, 'm, 'p, 'ab) ops \<Rightarrow> float64 \<Rightarrow> float64 \<Rightarrow> Body list
    \<Rightarrow> (addr \<Rightarrow> ('s, 't, 'v, 'm) body) \<Rightarrow> fault + (addr \<Rightarrow> ('s, 't, 'v, 'm) body)" where
  "predictBodyLocations_loop E g dt [] h = Inr h"
| "predictBodyLocations_loop E g dt (bb # bodies) h =
     (case assertBody bb of
        Inl f \<Rightarrow> Inl f
      | Inr b \<Rightarrow> predictBodyLocations_loop E g dt bodies (h(b := predict_body E g dt (h b))))"

definition predictBodyLocations :: "('s, 't, 'v, 'm, 'p, 'ab) ops \<Rightarrow> addr \<Rightarrow> Body list \<Rightarrow> float64
    \<Rightarrow> ('s, 't, 'v, 'm, 'p) state \<Rightarrow> fault + ('s, 't, 'v, 'm, 'p) state" where
  "predictBodyLocations E px bodies dt st =
     (case predictBodyLocations_loop E (gravity (insts st px)) dt bodies (heap st) of
        Inl f \<Rightarrow> Inl f
      | Inr h \<Rightarrow> Inr (st\<lparr>heap := h\<rparr>))"

subsection \<open>broadphase\<close>

text \<open>The body of the inner loop, for the pair \<open>bodyA\<close>, \<open>bodyB\<close>.\<close>

definition broadphase_pair :: "('s, 't, 'v, 'm, 'p, 'ab) ops \<Rightarrow> float64 \<Rightarrow> (addr \<Rightarrow> ('s, 't, 'v, 'm) body)
    \<Rightarrow> addr \<Rightarrow> addr \<Rightarrow> 'p pairs \<Rightarrow> 'p pairs" where
  "broadphase_pair E mg h a b pairs =
     (let bodyA = h a; bodyB = h b in
      if movable bodyA \<or> movable bodyB then
        (let pid = pairId E bodyA bodyB in
         case map_of pairs pid of
           Some pair \<Rightarrow>
             (let pairs1 = AList.update pid (pair\<lparr>valid := True\<rparr>) pairs in
              if \<not> Overlaps E (predictedAabb E bodyA mg) (predictedAabb E bodyB mg)
              then AList.delete pid pairs1
              else pairs1)
         | None \<Rightarrow>
             if Overlaps E (worldAabb E bodyA) (worldAabb E bodyB)
             then AList.update pid ((newContactPair E a b)\<lparr>valid := True\<rparr>) pairs
             else pairs)
      else pairs)"

fun broadphase_inner :: "('s, 't, 'v, 'm, 'p, 'ab) ops \<Rightarrow> float64 \<Rightarrow> (addr \<Rightarrow> ('s, 't, 'v, 'm) body)
    \<Rightarrow> addr \<Rightarrow> Body list \<Rightarrow> 'p pairs \<Rightarrow> fault + 'p pairs" where
  "broadphase_inner E mg h a [] pairs = Inr pairs"
| "broadphase_inner E mg h a (B2 # uniques) pairs =
     (case assertBody B2 of
        Inl f \<Rightarrow> Inl f
      | Inr b \<Rightarrow> broadphase_inner E mg h a uniques (broadphase_pair E mg h a b pairs))"

fun broadphase_outer :: "('s, 't, 'v, 'm, 'p, 'ab) ops \<Rightarrow> float64 \<Rightarrow> (addr \<Rightarrow> ('s, 't, 'v, 'm) body)
    \<Rightarrow> Body list \<Rightarrow> 'p pairs \<Rightarrow> fault + 'p pairs" where
  "broadphase_outer E mg h [] pairs = Inr pairs"
| "broadphase_outer E mg h (B1 # bodies) pairs =
     (case assertBody B1 of
        Inl f \<Rightarrow> Inl f
      | Inr a \<Rightarrow>
          (case broadphase_inner E mg h a bodies pairs of
             Inl f \<Rightarrow> Inl f
           | Inr pairs' \<Rightarrow> broadphase_outer E mg h bodies pairs'))"

definition broadphase :: "('s, 't, 'v, 'm, 'p, 'ab) ops \<Rightarrow> addr \<Rightarrow> Body list \<Rightarrow> 'p pairs
    \<Rightarrow> ('s, 't, 'v, 'm, 'p) state \<Rightarrow> fault + 'p pairs" where
  "broadphase E px bodies pairs st =
     (case broadphase_outer E (margin st) (heap st) bodies
             (map (\<lambda>(k, pair). (k, pair\<lparr>valid := False\<rparr>)) pairs) of
        Inl f \<Rightarrow> Inl f
      | Inr pairs' \<Rightarrow> Inr (filter (\<lambda>(k, pair). valid pair) pairs'))"

subsection \<open>narrowphase\<close>

text \<open>The body of the loop over the overlap table, for one contact pair.\<close>

definition narrowphase_pair :: "('s, 't, 'v, 'm, 'p, 'ab) ops \<Rightarrow> (addr \<Rightarrow> ('s, 't, 'v, 'm) body)
    \<Rightarrow> 'p contactPair \<Rightarrow> colliding \<times> 'p list \<Rightarrow> fault + ('p contactPair \<times> colliding \<times> 'p list)" where
  "narrowphase_pair E h cpair acc =
     (let a = bodyA cpair; b = bodyB cpair; coll = fst acc; scr = snd acc in
      case shapeType E (h a) of
        Inl f \<Rightarrow> Inl f
      | Inr ta \<Rightarrow>
      (case shapeType E (h b) of
        Inl f \<Rightarrow> Inl f
      | Inr tb \<Rightarrow>
      (case algorithms E ta tb h (BodyPtr a) (BodyPtr b) scr of
        (bA, bB, manifold, scr') \<Rightarrow>
      (case assertBody bA of
        Inl f \<Rightarrow> Inl f
      | Inr a' \<Rightarrow>
      (case assertBody bB of
        Inl f \<Rightarrow> Inl f
      | Inr b' \<Rightarrow>
        (let cpair1 = cpair\<lparr>bodyA := a', bodyB := b'\<rparr> in
         if length manifold > 0
         then Inr (mergeContacts E manifold (refreshContacts E (world (h a)) (world (h b)) cpair1),
                   AList.update (bid (h b)) b (AList.update (bid (h a)) a coll), scr')
         else Inr (cpair1, coll, scr')))))))"

fun narrowphase_loop :: "('s, 't, 'v, 'm, 'p, 'ab) ops \<Rightarrow> (addr \<Rightarrow> ('s, 't, 'v, 'm) body)
    \<Rightarrow> 'p pairs \<Rightarrow> colliding \<times> 'p list \<Rightarrow> fault + ('p pairs \<times> colliding \<times> 'p list)" where
  "narrowphase_loop E h [] acc = Inr ([], acc)"
| "narrowphase_loop E h ((k, cpair) # pairs) acc =
     (case narrowphase_pair E h cpair acc of
        Inl f \<Rightarrow> Inl f
      | Inr (cpair', acc') \<Rightarrow>
          (case narrowphase_loop E h pairs acc' of
             Inl f \<Rightarrow> Inl f
           | Inr (pairs', acc'') \<Rightarrow> Inr ((k, cpair') # pairs', acc'')))"

text \<open>narrowphase returns the colliding set, the updated pairs and the scratch manifold.\<close>

definition narrowphase :: "('s, 't, 'v, 'm, 'p, 'ab) ops \<Rightarrow> addr \<Rightarrow> 'p pairs
    \<Rightarrow> ('s, 't, 'v, 'm, 'p) state \<Rightarrow> fault + (colliding \<times> 'p pairs \<times> 'p list)" where
  "narrowphase E px pairs st =
     (case narrowphase_loop E (heap st) pairs ([], mf0 (insts st px)) of
        Inl f \<Rightarrow> Inl f
      | Inr (pairs', coll, scr) \<Rightarrow> Inr (coll, pairs', scr))"

subsection \<open>updateBodyLocations and clearForces\<close>

definition update_body :: "('s, 't, 'v, 'm, 'p, 'ab) ops \<Rightarrow> float64
    \<Rightarrow> ('s, 't, 'v, 'm) body \<Rightarrow> ('s, 't, 'v, 'm) body" where
  "update_body E timestep b =
     (if movable b then updateInertiaTensor E (updateWorldTransform E timestep b) else b)"

fun updateBodyLocations_loop :: "('s, 't, 'v, 'm, 'p, 'ab) ops \<Rightarrow> float64 \<Rightarrow> Body list
    \<Rightarrow> (addr \<Rightarrow> ('s, 't, 'v, 'm) body) \<Rightarrow> fault + (addr \<Rightarrow> ('s, 't, 'v, 'm) body)" where
  "updateBodyLocations_loop E timestep [] h = Inr h"
| "updateBodyLocations_loop E timestep (bb # bodies) h =
     (case assertBody bb of
        Inl f \<Rightarrow> Inl f
      | Inr b \<Rightarrow> updateBodyLocations_loop E timestep bodies (h(b := update_body E timestep (h b))))"

definition updateBodyLocations :: "('s, 't, 'v, 'm, 'p, 'ab) ops \<Rightarrow> addr \<Rightarrow> Body list \<Rightarrow> float64
    \<Rightarrow> ('s, 't, 'v, 'm, 'p) state \<Rightarrow> fault + ('s, 't, 'v, 'm, 'p) state" where
  "updateBodyLocations E px bodies timestep st =
     (case updateBodyLocations_loop E timestep bodies (heap st) of
        Inl f \<Rightarrow> Inl f
      | Inr h \<Rightarrow> Inr (st\<lparr>heap := h\<rparr>))"

fun clearForces_loop :: "Body list \<Rightarrow> (addr \<Rightarrow> ('s, 't, 'v::zero, 'm) body)
    \<Rightarrow> fault + (addr \<Rightarrow> ('s, 't, 'v, 'm) body)" where
  "clearForces_loop [] h = Inr h"
| "clearForces_loop (bb # bodies) h =
     (case assertBody bb of
        Inl f \<Rightarrow> Inl f
      | Inr b \<Rightarrow> clearForces_loop bodies (h(b := body_clearForces (h b))))"

definition clearForces :: "addr \<Rightarrow> Body list \<Rightarrow> ('s, 't, 'v::zero, 'm, 'p) state
    \<Rightarrow> fault + ('s, 't, 'v, 'm, 'p) state" where
  "clearForces px bodies st =
     (case clearForces_loop bodies (heap st) of
        Inl f \<Rightarrow> Inl f
      | Inr h \<Rightarrow> Inr (st\<lparr>heap := h\<rparr>))"

subsection \<open>Step\<close>

text \<open>The block between broadphase and updateBodyLocations: narrowphase runs when the
  overlap table is not empty, the solver when the colliding set is not empty.\<close>

definition collide_and_solve :: "('s, 't, 'v, 'm, 'p, 'ab) ops \<Rightarrow> addr \<Rightarrow> float64
    \<Rightarrow> ('s, 't, 'v, 'm, 'p) state \<Rightarrow> fault + ('s, 't, 'v, 'm, 'p) state" where
  "collide_and_solve E px timestep st =
     (if length (overlapped (insts st px)) > 0 then
        (case narrowphase E px (overlapped (insts st px)) st of
           Inl f \<Rightarrow> Inl f
         | Inr (coll, pairs, scr) \<Rightarrow>
             (let st1 = st\<lparr>insts := (insts st)(px := (insts st px)\<lparr>overlapped := pairs, mf0 := scr\<rparr>)\<rparr> in
              if length coll > 0 then
                (let st2 = st1\<lparr>insts := (insts st1)(px := (insts st1 px)\<lparr>sol_timestep := timestep\<rparr>)\<rparr> in
                 case solve E timestep coll (overlapped (insts st2 px)) (heap st2) of
                   (pairs', h') \<Rightarrow>
                     Inr (st2\<lparr>heap := h', insts := (insts st2)(px := (insts st2 px)\<lparr>overlapped := pairs'\<rparr>)\<rparr>))
              else Inr st1))
      else Inr st)"

definition Step :: "('s, 't, 'v::zero, 'm, 'p, 'ab) ops \<Rightarrow> addr \<Rightarrow> Body list \<Rightarrow> float64
    \<Rightarrow> ('s, 't, 'v, 'm, 'p) state \<Rightarrow> fault + ('s, 't, 'v, 'm, 'p) state" where
  "Step E px bodies timestep st =
     (case predictBodyLocations E px bodies timestep st of
        Inl f \<Rightarrow> Inl f
      | Inr st1 \<Rightarrow>
     (case broadphase E px bodies (overlapped (insts st1 px)) st1 of
        Inl f \<Rightarrow> Inl f
      | Inr pairs \<Rightarrow>
     (case collide_and_solve E px timestep
             (st1\<lparr>insts := (insts st1)(px := (insts st1 px)\<lparr>overlapped := pairs\<rparr>)\<rparr>) of
        Inl f \<Rightarrow> Inl f
      | Inr st3 \<Rightarrow>
     (case updateBodyLocations E px bodies timestep st3 of
        Inl f \<Rightarrow> Inl f
      | Inr st4 \<Rightarrow> clearForces px bodies st4))))"

subsection \<open>Collide and Cast\<close>






section \<open>Notions used to state the properties of broadphase\<close>

text \<open>
  The pairs of positions \<open>i < j\<close> of a list, in the order in which the two nested loops of
  broadphase visit them, and the run of the loop body over a list of such pairs.
\<close>

fun upairs :: "'a list \<Rightarrow> ('a \<times> 'a) list" where
  "upairs [] = []"
| "upairs (x # xs) = map (Pair x) xs @ upairs xs"

fun broadphase_walk :: "('s, 't, 'v, 'm, 'p, 'ab) ops \<Rightarrow> float64 \<Rightarrow> (addr \<Rightarrow> ('s, 't, 'v, 'm) body)
    \<Rightarrow> (addr \<times> addr) list \<Rightarrow> 'p pairs \<Rightarrow> 'p pairs" where
  "broadphase_walk E mg h [] pairs = pairs"
| "broadphase_walk E mg h ((a, b) # rest) pairs =
     broadphase_walk E mg h rest (broadphase_pair E mg h a b pairs)"

text \<open>A pair is tested when one of its bodies is movable; \<open>pid\<close> is its identifier and
  \<open>pair_ids\<close> lists the identifiers of the tested pairs of a body list. \<open>retest\<close> is the
  effect of the loop body on the table entry of the pair.\<close>

definition eligible :: "(addr \<Rightarrow> ('s, 't, 'v, 'm) body) \<Rightarrow> addr \<times> addr \<Rightarrow> bool" where
  "eligible h ab = (movable (h (fst ab)) \<or> movable (h (snd ab)))"

definition pid :: "('s, 't, 'v, 'm, 'p, 'ab) ops \<Rightarrow> (addr \<Rightarrow> ('s, 't, 'v, 'm) body) \<Rightarrow> addr \<times> addr \<Rightarrow> 64 word" where
  "pid E h ab = pairId E (h (fst ab)) (h (snd ab))"

definition pair_ids :: "('s, 't, 'v, 'm, 'p, 'ab) ops \<Rightarrow> (addr \<Rightarrow> ('s, 't, 'v, 'm) body) \<Rightarrow> addr list \<Rightarrow> 64 word list" where
  "pair_ids E h as = map (pid E h) (filter (eligible h) (upairs as))"

definition retest :: "('s, 't, 'v, 'm, 'p, 'ab) ops \<Rightarrow> float64 \<Rightarrow> (addr \<Rightarrow> ('s, 't, 'v, 'm) body)
    \<Rightarrow> addr \<Rightarrow> addr \<Rightarrow> 'p contactPair option \<Rightarrow> 'p contactPair option" where
  "retest E mg h a b entry =
     (case entry of
        Some pair \<Rightarrow>
          if Overlaps E (predictedAabb E (h a) mg) (predictedAabb E (h b) mg)
          then Some (pair\<lparr>valid := True\<rparr>) else None
      | None \<Rightarrow>
          if Overlaps E (worldAabb E (h a)) (worldAabb E (h b))
          then Some ((newContactPair E a b)\<lparr>valid := True\<rparr>) else None)"

text \<open>The first loop of broadphase marks every pair invalid, the last one removes the pairs
  that are still invalid.\<close>

definition invalidate :: "'p pairs \<Rightarrow> 'p pairs" where
  "invalidate ps = map (\<lambda>(k, pair). (k, pair\<lparr>valid := False\<rparr>)) ps"

definition sweep :: "'p pairs \<Rightarrow> 'p pairs" where
  "sweep ps = filter (\<lambda>(k, pair). valid pair) ps"

text \<open>
  Modelled from the spec: \<^verbatim>\<open>body.pairId\<close> is defined outside the available sources. The
  spec describes the identifier as derived from the two body ids and the same for both
  orders, with one stored pair per unordered pair of bodies: equal identifiers mean equal
  sets of body ids.
\<close>

definition pairId_by_bids :: "('s, 't, 'v, 'm, 'p, 'ab) ops \<Rightarrow> bool" where
  "pairId_by_bids E \<longleftrightarrow>
     (\<forall>x y x' y'. pairId E x y = pairId E x' y' \<longrightarrow> {bid x, bid y} = {bid x', bid y'})"

section \<open>A concrete instance\<close>

text \<open>
  A small instance of the parameters, on a line instead of in space: a transform is a
  position, a bounding box an interval of half-width 1, two bodies touch when their
  positions are at most 2 apart. The identifier of a pair has the smaller body id in its
  upper and the larger in its lower 32 bits. The ray cast algorithm registered for shape
  type 0 asserts the shape of the ray, as a Go type assertion does, and reports a hit at a
  fixed point. The instance is used to run the functions above on concrete bodies.
\<close>

definition demo_ops :: "(nat, real, real, real, nat, real \<times> real) ops" where
  "demo_ops = \<lparr>
     Type = (\<lambda>s. s),
     applyGravity = (\<lambda>g b. b\<lparr>lfor := lfor b + g\<rparr>),
     integrateVelocities = (\<lambda>dt b. b\<lparr>lvel := lvel b + lfor b * dt\<rparr>),
     applyDamping = (\<lambda>dt b. b),
     updatePredictedTransform = (\<lambda>dt b. b\<lparr>guess := world b + lvel b * dt\<rparr>),
     updateWorldTransform = (\<lambda>dt b. b\<lparr>world := world b + lvel b * dt\<rparr>),
     updateInertiaTensor = (\<lambda>b. b),
     pairId = (\<lambda>a b. word_of_nat (unat (min (bid a) (bid b)) * 2 ^ 32 + unat (max (bid a) (bid b)))),
     predictedAabb = (\<lambda>b mg. (guess b - 1 - mg, guess b + 1 + mg)),
     worldAabb = (\<lambda>b. (world b - 1, world b + 1)),
     Overlaps = (\<lambda>p q. fst p < snd q \<and> fst q < snd p),
     newContactPair = (\<lambda>a b. \<lparr>bodyA = a, bodyB = b, valid = False, pocs = []\<rparr>),
     algorithms = (\<lambda>ta tb h A B scr.
        (A, B, (case (A, B) of (BodyPtr a, BodyPtr b) \<Rightarrow> if \<bar>world (h a) - world (h b)\<bar> \<le> 2 then [0] else [] | _ \<Rightarrow> []), scr)),
     refreshContacts = (\<lambda>wa wb p. p),
     mergeContacts = (\<lambda>m p. p\<lparr>pocs := m\<rparr>),
     solve = (\<lambda>dt coll ps h. (ps, h)),
     rayCastAlgorithms = (\<lambda>n. if n = 0 then Some (\<lambda>h ray b. case ray of NilBody \<Rightarrow> Inl InterfaceConversion | BodyPtr r \<Rightarrow> (case shape (h r) of None \<Rightarrow> Inl InterfaceConversion | Some s \<Rightarrow> Inr (True, 1, 2, 3))) else None),
     newManifold = [],
     newSolver = 0\<rparr>"

definition demo_body :: "32 word \<Rightarrow> bool \<Rightarrow> real \<Rightarrow> (nat, real, real, real) body" where
  "demo_body i mv x = \<lparr>bid = i, shape = Some 0, movable = mv, world = x, guess = x,
      lvel = 0, avel = 0, lfor = 0, afor = 0, iitw = 1\<rparr>"

text \<open>The heap: body 0 is movable, bodies 1 and 2 are immovable, body 2 has a predicted
  position that differs from its world position, and every other body has no shape. Two
  physics instances of the process are new; \<open>demo_pairs\<close> is an overlap table with the
  pairs of bodies 0, 2 and 0, 1.\<close>

definition demo_heap :: "addr \<Rightarrow> (nat, real, real, real) body" where
  "demo_heap a = (if a = 0 then demo_body 1 True 0
                  else if a = 1 then demo_body 2 False 1
                  else if a = 2 then (demo_body 3 False 10)\<lparr>guess := 7\<rparr>
                  else (demo_body (word_of_nat a + 1) False 100)\<lparr>shape := None\<rparr>)"

definition demo_state :: "(nat, real, real, real, nat) state" where
  "demo_state = \<lparr>margin = margin_init, heap = demo_heap, insts = (\<lambda>_. newPhysics demo_ops)\<rparr>"

definition demo_pair :: "nat contactPair" where
  "demo_pair = \<lparr>bodyA = 0, bodyB = 2, valid = True, pocs = []\<rparr>"

definition demo_pairs :: "nat pairs" where
  "demo_pairs = [(4294967299, demo_pair), (4294967298, demo_pair\<lparr>bodyB := 1\<rparr>)]"

section \<open>Basic facts\<close>

lemma assertBody_Inr [simp]: "assertBody bb = Inr a \<longleftrightarrow> bb = BodyPtr a"
  by (cases bb) (simp_all add: assertBody_def)

lemma assertBody_simps [simp]:
  "assertBody NilBody = Inl InterfaceConversion" "assertBody (BodyPtr a) = Inr a"
  by (simp_all add: assertBody_def)


lemmas demo_defs = demo_ops_def demo_heap_def demo_body_def demo_state_def newPhysics_def margin_init_def

lemmas step_defs = Step_def predictBodyLocations_def predict_body_def broadphase_def broadphase_pair_def
  collide_and_solve_def narrowphase_def narrowphase_pair_def shapeType_def updateBodyLocations_def
  update_body_def clearForces_def body_clearForces_def Let_def

lemma not_isl_eq: "\<not> isl x \<Longrightarrow> x = Inr (projr x)"
  by (cases x) simp_all

section \<open>The simulation step\<close>

subsection \<open>Order of the stages and clearing of forces\<close>

lemma body_clearForces_idem [simp]: "body_clearForces (body_clearForces b) = body_clearForces b"
  by (simp add: body_clearForces_def)

lemma clearForces_loop_result:
  "clearForces_loop bodies h = Inr h' \<Longrightarrow>
   h' a = (if BodyPtr a \<in> set bodies then body_clearForces (h a) else h a)"
proof (induction bodies arbitrary: h)
  case Nil
  then show ?case by simp
next
  case (Cons bb bodies)
  then obtain b where bb: "bb = BodyPtr b" by (cases bb) auto
  let ?h1 = "h(b := body_clearForces (h b))"
  from Cons.prems bb have "clearForces_loop bodies ?h1 = Inr h'" by simp
  from Cons.IH [OF this] bb show ?case by auto
qed

lemma narrowphase_empty: "narrowphase E px [] st = Inr ([], [], mf0 (insts st px))"
  by (simp add: narrowphase_def)


lemma collide_and_solve_stages:
  assumes "collide_and_solve E px timestep st = Inr st3"
  shows "\<exists>coll pairs' scr.
      narrowphase E px (overlapped (insts st px)) st = Inr (coll, pairs', scr) \<and>
      st3 = (if coll = []
             then st\<lparr>insts := (insts st)(px := (insts st px)\<lparr>overlapped := pairs', mf0 := scr\<rparr>)\<rparr>
             else st\<lparr>heap := snd (solve E timestep coll pairs' (heap st)),
                     insts := (insts st)(px := (insts st px)
                        \<lparr>mf0 := scr, sol_timestep := timestep,
                         overlapped := fst (solve E timestep coll pairs' (heap st))\<rparr>)\<rparr>)"
proof (cases "overlapped (insts st px) = []")
  case True
  with assms have st3: "st3 = st" by (simp add: collide_and_solve_def)
  from True have e: "(insts st px)\<lparr>overlapped := []\<rparr> = insts st px"
    by (cases "insts st px") simp
  show ?thesis unfolding st3 True narrowphase_empty by (simp add: e)
next
  case False
  with assms obtain coll pairs' scr
    where np: "narrowphase E px (overlapped (insts st px)) st = Inr (coll, pairs', scr)"
    by (auto simp: collide_and_solve_def split: sum.splits)
  show ?thesis
  proof (cases "coll = []")
    case True
    with assms False np show ?thesis by (simp add: collide_and_solve_def)
  next
    case cne: False
    obtain ps h where sv: "solve E timestep coll pairs' (heap st) = (ps, h)"
      by (cases "solve E timestep coll pairs' (heap st)")
    with assms False np cne show ?thesis
      by (auto simp: collide_and_solve_def Let_def)
  qed
qed

lemma narrowphase_overlapped_irrelevant:
  "narrowphase E px pairs (st\<lparr>insts := (insts st)(px := (insts st px)\<lparr>overlapped := ps\<rparr>)\<rparr>)
   = narrowphase E px pairs st"
  by (simp add: narrowphase_def)

text \<open>
  C1. A call of \<open>Step\<close> that returns has run, in this order: the prediction of the
  bodies' motion, broadphase on the overlap table, narrowphase on the pairs broadphase
  left, the solver exactly when the colliding set is not empty, the commit of the world
  transforms, and last the clearing of forces. Every body of the list ends the step with
  its forces cleared, whatever its movable flag and whether or not anything collided.
\<close>

theorem Step_pipeline:
  assumes "Step E px bodies timestep st = Inr st'"
  shows "\<exists>st1 pairs coll pairs' scr st3 st4.
      predictBodyLocations E px bodies timestep st = Inr st1 \<and>
      broadphase E px bodies (overlapped (insts st1 px)) st1 = Inr pairs \<and>
      narrowphase E px pairs st1 = Inr (coll, pairs', scr) \<and>
      st3 = (if coll = []
             then st1\<lparr>insts := (insts st1)(px := (insts st1 px)\<lparr>overlapped := pairs', mf0 := scr\<rparr>)\<rparr>
             else st1\<lparr>heap := snd (solve E timestep coll pairs' (heap st1)),
                     insts := (insts st1)(px := (insts st1 px)
                        \<lparr>mf0 := scr, sol_timestep := timestep,
                         overlapped := fst (solve E timestep coll pairs' (heap st1))\<rparr>)\<rparr>) \<and>
      updateBodyLocations E px bodies timestep st3 = Inr st4 \<and>
      clearForces px bodies st4 = Inr st' \<and>
      (\<forall>a. BodyPtr a \<in> set bodies \<longrightarrow>
           heap st' a = body_clearForces (heap st4 a) \<and> lfor (heap st' a) = 0 \<and> afor (heap st' a) = 0)"
proof -
  from assms obtain st1 where s1: "predictBodyLocations E px bodies timestep st = Inr st1"
    by (auto simp: Step_def split: sum.splits)
  with assms obtain pairs where s2: "broadphase E px bodies (overlapped (insts st1 px)) st1 = Inr pairs"
    by (auto simp: Step_def split: sum.splits)
  let ?st2 = "st1\<lparr>insts := (insts st1)(px := (insts st1 px)\<lparr>overlapped := pairs\<rparr>)\<rparr>"
  from assms s1 s2 obtain st3 where s3: "collide_and_solve E px timestep ?st2 = Inr st3"
    by (auto simp: Step_def split: sum.splits)
  with assms s1 s2 obtain st4 where s4: "updateBodyLocations E px bodies timestep st3 = Inr st4"
    by (auto simp: Step_def split: sum.splits)
  with assms s1 s2 s3 have s5: "clearForces px bodies st4 = Inr st'"
    by (simp add: Step_def)
  from collide_and_solve_stages [OF s3] obtain coll pairs' scr where
    np: "narrowphase E px pairs st1 = Inr (coll, pairs', scr)" and
    st3: "st3 = (if coll = []
             then st1\<lparr>insts := (insts st1)(px := (insts st1 px)\<lparr>overlapped := pairs', mf0 := scr\<rparr>)\<rparr>
             else st1\<lparr>heap := snd (solve E timestep coll pairs' (heap st1)),
                     insts := (insts st1)(px := (insts st1 px)
                        \<lparr>mf0 := scr, sol_timestep := timestep,
                         overlapped := fst (solve E timestep coll pairs' (heap st1))\<rparr>)\<rparr>)"
    by (auto simp: narrowphase_overlapped_irrelevant)
  from s5 obtain h' where h': "clearForces_loop bodies (heap st4) = Inr h'" and st': "st' = st4\<lparr>heap := h'\<rparr>"
    by (auto simp: clearForces_def split: sum.splits)
  have "\<forall>a. BodyPtr a \<in> set bodies \<longrightarrow>
           heap st' a = body_clearForces (heap st4 a) \<and> lfor (heap st' a) = 0 \<and> afor (heap st' a) = 0"
    using clearForces_loop_result [OF h'] st' by (simp add: body_clearForces_def)
  with s1 s2 np st3 s4 s5 show ?thesis by blast
qed

theorem Step_pipeline_witness:
  "Step demo_ops 0 [BodyPtr 0, BodyPtr 1, BodyPtr 2] 1 demo_state
     = Inr (projr (Step demo_ops 0 [BodyPtr 0, BodyPtr 1, BodyPtr 2] 1 demo_state)) \<and>
   lfor (heap (projr (Step demo_ops 0 [BodyPtr 0, BodyPtr 1, BodyPtr 2] 1 demo_state)) 0) = 0"
proof -
  have ok: "Step demo_ops 0 [BodyPtr 0, BodyPtr 1, BodyPtr 2] 1 demo_state
     = Inr (projr (Step demo_ops 0 [BodyPtr 0, BodyPtr 1, BodyPtr 2] 1 demo_state))"
    by (rule not_isl_eq) (simp add: step_defs demo_defs)
  from Step_pipeline [OF ok] show ?thesis using ok by auto
qed

subsection \<open>Immovable bodies in the two integration passes\<close>

lemma predict_body_immovable:
  "\<not> movable b \<Longrightarrow> predict_body E g dt b = b\<lparr>guess := world b\<rparr>"
  by (simp add: predict_body_def)

lemma predict_loop_immovable:
  "predictBodyLocations_loop E g dt bodies h = Inr h' \<Longrightarrow> \<not> movable (h a) \<Longrightarrow>
   h' a = (if BodyPtr a \<in> set bodies then (h a)\<lparr>guess := world (h a)\<rparr> else h a)"
proof (induction bodies arbitrary: h)
  case Nil
  then show ?case by simp
next
  case (Cons bb bodies)
  then obtain b where bb: "bb = BodyPtr b" by (cases bb) auto
  let ?h1 = "h(b := predict_body E g dt (h b))"
  from Cons.prems bb have run: "predictBodyLocations_loop E g dt bodies ?h1 = Inr h'" by simp
  show ?case
  proof (cases "b = a")
    case True
    with Cons.prems have h1a: "?h1 a = (h a)\<lparr>guess := world (h a)\<rparr>"
      by (simp add: predict_body_immovable)
    then have "\<not> movable (?h1 a)" using Cons.prems by simp
    from Cons.IH [OF run this] h1a bb True show ?thesis by simp
  next
    case False
    then have h1a: "?h1 a = h a" by simp
    then have "\<not> movable (?h1 a)" using Cons.prems by simp
    from Cons.IH [OF run this] h1a bb False show ?thesis by auto
  qed
qed

lemma update_loop_immovable:
  "updateBodyLocations_loop E dt bodies h = Inr h' \<Longrightarrow> \<not> movable (h a) \<Longrightarrow> h' a = h a"
proof (induction bodies arbitrary: h)
  case Nil
  then show ?case by simp
next
  case (Cons bb bodies)
  then obtain b where bb: "bb = BodyPtr b" by (cases bb) auto
  let ?h1 = "h(b := update_body E dt (h b))"
  from Cons.prems bb have run: "updateBodyLocations_loop E dt bodies ?h1 = Inr h'" by simp
  have h1a: "?h1 a = h a" using Cons.prems(2) by (auto simp: update_body_def)
  then have "\<not> movable (?h1 a)" using Cons.prems by simp
  from Cons.IH [OF run this] h1a show ?case by simp
qed

lemma predict_loop_total:
  "NilBody \<notin> set bodies \<Longrightarrow> \<exists>h'. predictBodyLocations_loop E g dt bodies h = Inr h'"
proof (induction bodies arbitrary: h)
  case Nil
  then show ?case by simp
next
  case (Cons bb bodies)
  then obtain b where "bb = BodyPtr b" by (cases bb) auto
  with Cons show ?case by simp
qed

lemma update_loop_total:
  "NilBody \<notin> set bodies \<Longrightarrow> \<exists>h'. updateBodyLocations_loop E dt bodies h = Inr h'"
proof (induction bodies arbitrary: h)
  case Nil
  then show ?case by simp
next
  case (Cons bb bodies)
  then obtain b where "bb = BodyPtr b" by (cases bb) auto
  with Cons show ?case by simp
qed

text \<open>
  C8, as stated, fails: the prediction pass copies the world transform of every body of the
  list into its predicted transform, immovable or not. Here body 2 is immovable with
  predicted position 7 and world position 10; after the pass its predicted position is 10.
\<close>

theorem immovable_guess_counterexample:
  "\<not> movable (heap demo_state 2) \<and>
   \<not> isl (predictBodyLocations demo_ops 0 [BodyPtr 2] 1 demo_state) \<and>
   guess (heap demo_state 2) = 7 \<and>
   guess (heap (projr (predictBodyLocations demo_ops 0 [BodyPtr 2] 1 demo_state)) 2) = 10"
  by (simp add: predictBodyLocations_def predict_body_def demo_defs)

(* C1 *)

text \<open>
  C8, amended. For an immovable body, the prediction pass applies no gravity, velocity
  integration, damping or integration of the predicted transform: if the body is in the
  list, its predicted transform is reset to its world transform and nothing else of it
  changes; if it is not in the list it is unchanged. The commit pass leaves the body
  unchanged, world transform and inertia tensor included. Both passes return on every
  list without a nil entry.
\<close>

theorem immovable_untouched_but_guess:
  assumes "NilBody \<notin> set bodies" and "\<not> movable (heap st a)"
  shows "(\<exists>st'. predictBodyLocations E px bodies dt st = Inr st' \<and>
            heap st' a = (if BodyPtr a \<in> set bodies
                          then (heap st a)\<lparr>guess := world (heap st a)\<rparr> else heap st a))
       \<and> (\<exists>st'. updateBodyLocations E px bodies dt st = Inr st' \<and> heap st' a = heap st a)"
proof
  from predict_loop_total [OF assms(1)] obtain h'
    where h': "predictBodyLocations_loop E (gravity (insts st px)) dt bodies (heap st) = Inr h'"
    by blast
  from predict_loop_immovable [OF h' assms(2)] h'
  show "\<exists>st'. predictBodyLocations E px bodies dt st = Inr st' \<and>
            heap st' a = (if BodyPtr a \<in> set bodies
                          then (heap st a)\<lparr>guess := world (heap st a)\<rparr> else heap st a)"
    by (simp add: predictBodyLocations_def)
next
  from update_loop_total [OF assms(1)] obtain h'
    where h': "updateBodyLocations_loop E dt bodies (heap st) = Inr h'"
    by blast
  from update_loop_immovable [OF h' assms(2)] h'
  show "\<exists>st'. updateBodyLocations E px bodies dt st = Inr st' \<and> heap st' a = heap st a"
    by (simp add: updateBodyLocations_def)
qed

theorem immovable_untouched_but_guess_witness:
  "NilBody \<notin> set [BodyPtr 0, BodyPtr 1, BodyPtr 2] \<and> \<not> movable (heap demo_state 2) \<and>
   (\<exists>st'. predictBodyLocations demo_ops 0 [BodyPtr 0, BodyPtr 1, BodyPtr 2] 1 demo_state = Inr st' \<and>
          heap st' 2 = (heap demo_state 2)\<lparr>guess := 10\<rparr>) \<and>
   (\<exists>st'. updateBodyLocations demo_ops 0 [BodyPtr 0, BodyPtr 1, BodyPtr 2] 1 demo_state = Inr st' \<and>
          heap st' 2 = heap demo_state 2)"
  using immovable_untouched_but_guess [of "[BodyPtr 0, BodyPtr 1, BodyPtr 2]" demo_state 2 demo_ops 0 1]
  by (simp add: demo_defs)

section \<open>The queries Collide and Cast\<close>










section \<open>Gravity and margin\<close>



section \<open>Broadphase\<close>

subsection \<open>The loops as a walk over the pairs of the list\<close>

lemma broadphase_pair_lookup:
  "map_of (broadphase_pair E mg h a b ps) k =
     (if eligible h (a, b) \<and> k = pid E h (a, b) then retest E mg h a b (map_of ps k) else map_of ps k)"
  by (auto simp: broadphase_pair_def eligible_def pid_def retest_def Let_def update_conv' delete_conv'
           split: option.splits)

lemma broadphase_pair_distinct:
  "distinct (map fst ps) \<Longrightarrow> distinct (map fst (broadphase_pair E mg h a b ps))"
  by (auto simp: broadphase_pair_def Let_def distinct_update distinct_delete split: option.splits)

lemma broadphase_pair_immovable:
  "\<not> movable (h a) \<Longrightarrow> \<not> movable (h b) \<Longrightarrow> broadphase_pair E mg h a b ps = ps"
  by (simp add: broadphase_pair_def)

lemma walk_append:
  "broadphase_walk E mg h (xs @ ys) ps = broadphase_walk E mg h ys (broadphase_walk E mg h xs ps)"
  by (induction xs arbitrary: ps) auto

lemma walk_distinct:
  "distinct (map fst ps) \<Longrightarrow> distinct (map fst (broadphase_walk E mg h prs ps))"
  by (induction prs arbitrary: ps) (auto simp: broadphase_pair_distinct)

lemma walk_untouched:
  "k \<notin> set (map (pid E h) (filter (eligible h) prs)) \<Longrightarrow>
   map_of (broadphase_walk E mg h prs ps) k = map_of ps k"
proof (induction prs arbitrary: ps)
  case Nil
  then show ?case by simp
next
  case (Cons x prs)
  obtain a b where x: "x = (a, b)" by (cases x)
  from Cons.prems x have rest: "k \<notin> set (map (pid E h) (filter (eligible h) prs))"
    by (auto split: if_splits)
  from Cons.prems x have here: "\<not> (eligible h (a, b) \<and> k = pid E h (a, b))"
    by auto
  from here have "map_of (broadphase_pair E mg h a b ps) k = map_of ps k"
    by (auto simp: broadphase_pair_lookup)
  with Cons.IH [OF rest] x show ?case by simp
qed

lemma walk_once:
  assumes "prs = pre @ (a, b) # post" and "eligible h (a, b)"
    and "pid E h (a, b) \<notin> set (map (pid E h) (filter (eligible h) pre))"
    and "pid E h (a, b) \<notin> set (map (pid E h) (filter (eligible h) post))"
  shows "map_of (broadphase_walk E mg h prs ps) (pid E h (a, b))
           = retest E mg h a b (map_of ps (pid E h (a, b)))"
  using assms by (simp add: walk_append walk_untouched broadphase_pair_lookup)

lemma inner_walk:
  "broadphase_inner E mg h a (map BodyPtr bs) ps = Inr (broadphase_walk E mg h (map (Pair a) bs) ps)"
  by (induction bs arbitrary: ps) auto

lemma outer_walk:
  "broadphase_outer E mg h (map BodyPtr as) ps = Inr (broadphase_walk E mg h (upairs as) ps)"
  by (induction as arbitrary: ps) (auto simp: inner_walk walk_append)

lemma inner_nil: "NilBody \<in> set bs \<Longrightarrow> isl (broadphase_inner E mg h a bs ps)"
proof (induction bs arbitrary: ps)
  case Nil
  then show ?case by simp
next
  case (Cons B bs)
  then show ?case by (cases B) auto
qed

lemma outer_nil: "NilBody \<in> set bs \<Longrightarrow> isl (broadphase_outer E mg h bs ps)"
proof (induction bs arbitrary: ps)
  case Nil
  then show ?case by simp
next
  case (Cons B bs)
  show ?case
  proof (cases B)
    case NilBody
    then show ?thesis by simp
  next
    case (BodyPtr a)
    with Cons.prems have n: "NilBody \<in> set bs" by simp
    from inner_nil [OF n] BodyPtr show ?thesis
      by (auto split: sum.splits simp: Cons.IH [OF n])
  qed
qed

lemma broadphase_as_walk:
  "broadphase E px (map BodyPtr as) pairs st
     = Inr (sweep (broadphase_walk E (margin st) (heap st) (upairs as) (invalidate pairs)))"
  by (simp add: broadphase_def outer_walk sweep_def invalidate_def)

lemma map_of_invalidate:
  "map_of (invalidate ps) k = map_option (\<lambda>pair. pair\<lparr>valid := False\<rparr>) (map_of ps k)"
  by (induction ps) (auto simp: invalidate_def)

lemma invalidate_keys: "map fst (invalidate ps) = map fst ps"
  by (induction ps) (auto simp: invalidate_def)

lemma map_of_sweep:
  "distinct (map fst ps) \<Longrightarrow>
   map_of (sweep ps) k = (case map_of ps k of Some pair \<Rightarrow> if valid pair then Some pair else None | None \<Rightarrow> None)"
proof (induction ps)
  case Nil
  then show ?case by (simp add: sweep_def)
next
  case (Cons x ps)
  obtain k' p where x: "x = (k', p)" by (cases x)
  with Cons.prems have nk: "k' \<notin> fst ` set ps" by simp
  then have "map_of ps k' = None" by (simp add: map_of_eq_None_iff)
  with Cons x show ?case by (auto simp: sweep_def)
qed

lemma retest_valid: "retest E mg h a b e = Some pair \<Longrightarrow> valid pair"
  by (auto simp: retest_def split: option.splits if_splits)

lemma upairs_members: "(a, b) \<in> set (upairs as) \<Longrightarrow> a \<in> set as \<and> b \<in> set as"
  by (induction as) auto

lemma retest_invalidated:
  "retest E mg h a b (map_option (\<lambda>pair. pair\<lparr>valid := False\<rparr>) e) = retest E mg h a b e"
  by (cases e) (simp_all add: retest_def)

lemma broadphase_lookup_untested:
  assumes "distinct (map fst pairs)" and "k \<notin> set (pair_ids E (heap st) as)"
  shows "map_of (sweep (broadphase_walk E (margin st) (heap st) (upairs as) (invalidate pairs))) k = None"
proof -
  let ?w = "broadphase_walk E (margin st) (heap st) (upairs as) (invalidate pairs)"
  from assms(1) have d: "distinct (map fst ?w)"
    by (simp add: walk_distinct invalidate_keys)
  from assms(2) have "map_of ?w k = map_of (invalidate pairs) k"
    by (simp add: pair_ids_def walk_untouched)
  then show ?thesis
    by (simp add: map_of_sweep [OF d] map_of_invalidate split: option.splits)
qed

lemma broadphase_lookup_tested:
  assumes "distinct (map fst pairs)" and "distinct (pair_ids E (heap st) as)"
    and "(a, b) \<in> set (upairs as)" and "eligible (heap st) (a, b)"
  shows "map_of (sweep (broadphase_walk E (margin st) (heap st) (upairs as) (invalidate pairs)))
                (pid E (heap st) (a, b))
           = retest E (margin st) (heap st) a b (map_of pairs (pid E (heap st) (a, b)))"
proof -
  let ?k = "pid E (heap st) (a, b)"
  let ?w = "broadphase_walk E (margin st) (heap st) (upairs as) (invalidate pairs)"
  from assms(1) have d: "distinct (map fst ?w)"
    by (simp add: walk_distinct invalidate_keys)
  from assms(3) obtain pre post where sp: "upairs as = pre @ (a, b) # post"
    by (auto simp: in_set_conv_decomp)
  with assms(2,4) have
    "?k \<notin> set (map (pid E (heap st)) (filter (eligible (heap st)) pre))"
    "?k \<notin> set (map (pid E (heap st)) (filter (eligible (heap st)) post))"
    by (auto simp: pair_ids_def)
  from walk_once [OF sp assms(4) this]
  have w: "map_of ?w ?k = retest E (margin st) (heap st) a b (map_of pairs ?k)"
    by (simp add: map_of_invalidate retest_invalidated)
  show ?thesis
  proof (cases "retest E (margin st) (heap st) a b (map_of pairs ?k)")
    case None
    with w show ?thesis by (simp add: map_of_sweep [OF d])
  next
    case (Some pair)
    with w retest_valid [OF Some] show ?thesis by (simp add: map_of_sweep [OF d])
  qed
qed

lemma sweep_valid: "(k, pair) \<in> set (sweep ps) \<Longrightarrow> valid pair"
  by (auto simp: sweep_def)

lemma broadphase_keys_tested:
  assumes "distinct (map fst pairs)"
    and "k \<in> fst ` set (sweep (broadphase_walk E (margin st) (heap st) (upairs as) (invalidate pairs)))"
  shows "k \<in> set (pair_ids E (heap st) as)"
proof (rule ccontr)
  assume "k \<notin> set (pair_ids E (heap st) as)"
  from broadphase_lookup_untested [OF assms(1) this] assms(2) show False
    by (simp add: map_of_eq_None_iff)
qed

subsection \<open>The instance\<close>

lemma split_digits:
  fixes K x y x' y' :: nat
  assumes "x * K + y = x' * K + y'" and "y < K" and "y' < K"
  shows "x = x' \<and> y = y'"
proof -
  from assms(2) have "(x * K + y) div K = x" "(x * K + y) mod K = y" by simp_all
  moreover from assms(3) have "(x' * K + y') div K = x'" "(x' * K + y') mod K = y'" by simp_all
  ultimately show ?thesis using assms(1) by metis
qed

lemma digits_bound:
  fixes K x y :: nat
  assumes "x < K" and "y < K"
  shows "x * K + y < K * K"
proof -
  from assms have "x * K + y < x * K + K" by simp
  also have "\<dots> = (x + 1) * K" by simp
  also from assms(1) have "\<dots> \<le> K * K" by (intro mult_right_mono) simp_all
  finally show ?thesis .
qed

lemma unat32_bound: "unat (w :: 32 word) < 2 ^ 32"
  using unsigned_less [of w, where 'a = nat] by simp

lemma two64: "(2::nat) ^ 32 * 2 ^ 32 = 2 ^ LENGTH(64)"
  by (simp flip: power_add)

lemma key_inj:
  fixes lo hi lo' hi' :: "32 word"
  assumes "(word_of_nat (unat lo * 2 ^ 32 + unat hi) :: 64 word)
             = word_of_nat (unat lo' * 2 ^ 32 + unat hi')"
  shows "lo = lo' \<and> hi = hi'"
proof -
  let ?n = "unat lo * 2 ^ 32 + unat hi"
  let ?n' = "unat lo' * 2 ^ 32 + unat hi'"
  have n: "?n < 2 ^ LENGTH(64)"
    using digits_bound [OF unat32_bound unat32_bound, of lo hi] by (simp only: two64)
  have n': "?n' < 2 ^ LENGTH(64)"
    using digits_bound [OF unat32_bound unat32_bound, of lo' hi'] by (simp only: two64)
  have "?n = unat (word_of_nat ?n :: 64 word)"
    by (rule of_nat_inverse [OF refl n, symmetric])
  also have "\<dots> = unat (word_of_nat ?n' :: 64 word)"
    by (rule arg_cong [OF assms])
  also have "\<dots> = ?n'"
    by (rule of_nat_inverse [OF refl n'])
  finally have eq: "?n = ?n'" .
  from split_digits [OF eq unat32_bound unat32_bound]
  show ?thesis by (simp only: word_unat_eq_iff [of lo] word_unat_eq_iff [of hi])
qed

lemma demo_pairId_by_bids: "pairId_by_bids demo_ops"
  unfolding pairId_by_bids_def
proof (intro allI impI)
  fix x y x' y' :: "(nat, real, real, real) body"
  assume "pairId demo_ops x y = pairId demo_ops x' y'"
  then have "(word_of_nat (unat (min (bid x) (bid y)) * 2 ^ 32 + unat (max (bid x) (bid y))) :: 64 word)
     = word_of_nat (unat (min (bid x') (bid y')) * 2 ^ 32 + unat (max (bid x') (bid y')))"
    by (simp add: demo_ops_def)
  from key_inj [OF this]
  have "min (bid x) (bid y) = min (bid x') (bid y')" "max (bid x) (bid y) = max (bid x') (bid y')"
    by simp_all
  then show "{bid x, bid y} = {bid x', bid y'}"
    by (auto simp: min_def max_def split: if_splits)
qed


lemma demo_ids_02: "pair_ids demo_ops (heap demo_state) [0, 2] = [4294967299]"
  by (simp add: pair_ids_def eligible_def pid_def demo_defs)

lemma demo_id_02: "pairId demo_ops (heap demo_state 0) (heap demo_state 2) = 4294967299"
  by (simp add: demo_defs)

lemma demo_apart_02:
  "\<not> Overlaps demo_ops (predictedAabb demo_ops (heap demo_state 0) (margin demo_state))
                        (predictedAabb demo_ops (heap demo_state 2) (margin demo_state))"
  by (simp add: demo_defs)

lemma demo_bids_02: "bid (heap demo_state 1) \<notin> (\<lambda>a. bid (heap demo_state a)) ` set [0, 2]"
  by (simp add: demo_defs)

lemma demo_inj_bids: "inj_on (\<lambda>a. bid (heap demo_state a)) (set [0, 1, 2])"
  by (simp add: demo_defs)

subsection \<open>Retention and creation of pairs\<close>



subsection \<open>Purging of stale pairs\<close>

text \<open>
  C3. After a broadphase pass every pair left in the overlap table is valid, and an
  identifier that was not tested in the pass is not in the table. Hence, when identifiers
  determine the body ids, no pair of a body whose id is absent from the list survives the
  pass, in either order of the two bodies, and this holds again on every later pass without
  that body. A tested pair that was in the table and whose predicted boxes, expanded by
  the margin, do not overlap is removed as well.
\<close>

theorem broadphase_purges:
  assumes "distinct (map fst pairs)"
  shows "\<exists>pairs'. broadphase E px (map BodyPtr as) pairs st = Inr pairs' \<and>
           (\<forall>(k, pair) \<in> set pairs'. valid pair) \<and>
           (\<forall>k. k \<notin> set (pair_ids E (heap st) as) \<longrightarrow> k \<notin> fst ` set pairs') \<and>
           (pairId_by_bids E \<longrightarrow>
              (\<forall>x y. bid x \<notin> (\<lambda>a. bid (heap st a)) ` set as \<longrightarrow>
                     pairId E x y \<notin> fst ` set pairs' \<and> pairId E y x \<notin> fst ` set pairs')) \<and>
           (distinct (pair_ids E (heap st) as) \<longrightarrow>
              (\<forall>(a, b) \<in> set (upairs as).
                  (movable (heap st a) \<or> movable (heap st b)) \<longrightarrow>
                  pairId E (heap st a) (heap st b) \<in> fst ` set pairs \<longrightarrow>
                  \<not> Overlaps E (predictedAabb E (heap st a) (margin st))
                                (predictedAabb E (heap st b) (margin st)) \<longrightarrow>
                  pairId E (heap st a) (heap st b) \<notin> fst ` set pairs'))"
proof -
  let ?ps = "sweep (broadphase_walk E (margin st) (heap st) (upairs as) (invalidate pairs))"
  have run: "broadphase E px (map BodyPtr as) pairs st = Inr ?ps"
    by (rule broadphase_as_walk)
  have v: "\<forall>(k, pair) \<in> set ?ps. valid pair"
    by (auto dest: sweep_valid)
  have u: "\<forall>k. k \<notin> set (pair_ids E (heap st) as) \<longrightarrow> k \<notin> fst ` set ?ps"
    using broadphase_keys_tested [OF assms] by blast
  have absent: "pairId E x y \<notin> fst ` set ?ps \<and> pairId E y x \<notin> fst ` set ?ps"
    if inj: "pairId_by_bids E" and nb: "bid x \<notin> (\<lambda>a. bid (heap st a)) ` set as" for x y
  proof -
    have "k \<notin> set (pair_ids E (heap st) as)" if k: "k = pairId E x y \<or> k = pairId E y x" for k
    proof
      assume "k \<in> set (pair_ids E (heap st) as)"
      then obtain a b where ab: "(a, b) \<in> set (upairs as)" and
        kk: "k = pairId E (heap st a) (heap st b)"
        by (auto simp: pair_ids_def pid_def)
      from inj have r: "pairId E u v = pairId E u' v' \<Longrightarrow> {bid u, bid v} = {bid u', bid v'}"
        for u v u' v'
        unfolding pairId_by_bids_def by blast
      from k kk have "pairId E x y = pairId E (heap st a) (heap st b)
          \<or> pairId E y x = pairId E (heap st a) (heap st b)"
        by auto
      then have "bid x = bid (heap st a) \<or> bid x = bid (heap st b)"
      proof
        assume "pairId E x y = pairId E (heap st a) (heap st b)"
        from r [OF this] show ?thesis by (auto simp: doubleton_eq_iff)
      next
        assume "pairId E y x = pairId E (heap st a) (heap st b)"
        from r [OF this] show ?thesis by (auto simp: doubleton_eq_iff)
      qed
      with upairs_members [OF ab] nb show False by auto
    qed
    with u show ?thesis by blast
  qed
  have sep: "pairId E (heap st a) (heap st b) \<notin> fst ` set ?ps"
    if d: "distinct (pair_ids E (heap st) as)" and ab: "(a, b) \<in> set (upairs as)"
      and mv: "movable (heap st a) \<or> movable (heap st b)"
      and old: "pairId E (heap st a) (heap st b) \<in> fst ` set pairs"
      and no: "\<not> Overlaps E (predictedAabb E (heap st a) (margin st))
                                (predictedAabb E (heap st b) (margin st))" for a b
  proof -
    from mv have e: "eligible (heap st) (a, b)" by (simp add: eligible_def)
    from old have "map_of pairs (pid E (heap st) (a, b)) \<noteq> None"
      by (simp add: map_of_eq_None_iff pid_def)
    then obtain pair where "map_of pairs (pid E (heap st) (a, b)) = Some pair"
      by blast
    with broadphase_lookup_tested [OF assms d ab e] no
    have "map_of ?ps (pid E (heap st) (a, b)) = None"
      by (simp add: retest_def)
    then show ?thesis by (simp add: map_of_eq_None_iff pid_def)
  qed
  show ?thesis
  proof (rule exI [of _ ?ps], intro conjI)
    show "broadphase E px (map BodyPtr as) pairs st = Inr ?ps" by (rule run)
    show "\<forall>(k, pair) \<in> set ?ps. valid pair" by (rule v)
    show "\<forall>k. k \<notin> set (pair_ids E (heap st) as) \<longrightarrow> k \<notin> fst ` set ?ps" by (rule u)
    show "pairId_by_bids E \<longrightarrow>
              (\<forall>x y. bid x \<notin> (\<lambda>a. bid (heap st a)) ` set as \<longrightarrow>
                     pairId E x y \<notin> fst ` set ?ps \<and> pairId E y x \<notin> fst ` set ?ps)"
      using absent by blast
    show "distinct (pair_ids E (heap st) as) \<longrightarrow>
              (\<forall>(a, b) \<in> set (upairs as).
                  (movable (heap st a) \<or> movable (heap st b)) \<longrightarrow>
                  pairId E (heap st a) (heap st b) \<in> fst ` set pairs \<longrightarrow>
                  \<not> Overlaps E (predictedAabb E (heap st a) (margin st))
                                (predictedAabb E (heap st b) (margin st)) \<longrightarrow>
                  pairId E (heap st a) (heap st b) \<notin> fst ` set ?ps)"
      using sep by blast
  qed
qed

theorem broadphase_purges_witness:
  "distinct (map fst demo_pairs) \<and>
   4294967298 \<notin> set (pair_ids demo_ops (heap demo_state) [0, 2]) \<and>
   pairId_by_bids demo_ops \<and>
   bid (heap demo_state 1) \<notin> (\<lambda>a. bid (heap demo_state a)) ` set [0, 2] \<and>
   distinct (pair_ids demo_ops (heap demo_state) [0, 2]) \<and>
   (0, 2) \<in> set (upairs [0, 2 :: addr]) \<and>
   (movable (heap demo_state 0) \<or> movable (heap demo_state 2)) \<and>
   pairId demo_ops (heap demo_state 0) (heap demo_state 2) \<in> fst ` set demo_pairs \<and>
   \<not> Overlaps demo_ops (predictedAabb demo_ops (heap demo_state 0) (margin demo_state))
                        (predictedAabb demo_ops (heap demo_state 2) (margin demo_state)) \<and>
   (\<exists>pairs'. broadphase demo_ops 0 (map BodyPtr [0, 2]) demo_pairs demo_state = Inr pairs' \<and>
             (\<forall>(k, pair) \<in> set pairs'. valid pair) \<and>
             4294967298 \<notin> fst ` set pairs' \<and>
             pairId demo_ops (heap demo_state 1) (heap demo_state 0) \<notin> fst ` set pairs' \<and>
             pairId demo_ops (heap demo_state 0) (heap demo_state 2) \<notin> fst ` set pairs')"
proof -
  have d: "distinct (map fst demo_pairs)" by (simp add: demo_pairs_def)
  have u: "4294967298 \<notin> set (pair_ids demo_ops (heap demo_state) [0, 2])"
    unfolding demo_ids_02 by simp
  have inj: "pairId_by_bids demo_ops" by (rule demo_pairId_by_bids)
  have nb: "bid (heap demo_state 1) \<notin> (\<lambda>a. bid (heap demo_state a)) ` set [0, 2]"
    by (rule demo_bids_02)
  have dd: "distinct (pair_ids demo_ops (heap demo_state) [0, 2])"
    unfolding demo_ids_02 by simp
  have ab: "(0, 2) \<in> set (upairs [0, 2 :: addr])" by simp
  have mv: "movable (heap demo_state 0) \<or> movable (heap demo_state 2)" by (simp add: demo_defs)
  have old: "pairId demo_ops (heap demo_state 0) (heap demo_state 2) \<in> fst ` set demo_pairs"
    unfolding demo_id_02 by (simp add: demo_pairs_def)
  note no = demo_apart_02
  from broadphase_purges [OF d, of demo_ops 0 "[0, 2]" demo_state] obtain pairs' where
    r: "broadphase demo_ops 0 (map BodyPtr [0, 2]) demo_pairs demo_state = Inr pairs'" and
    v: "\<forall>(k, pair) \<in> set pairs'. valid pair" and
    p1: "\<forall>k. k \<notin> set (pair_ids demo_ops (heap demo_state) [0, 2]) \<longrightarrow> k \<notin> fst ` set pairs'" and
    p2: "pairId_by_bids demo_ops \<longrightarrow>
              (\<forall>x y. bid x \<notin> (\<lambda>a. bid (heap demo_state a)) ` set [0, 2] \<longrightarrow>
                     pairId demo_ops x y \<notin> fst ` set pairs' \<and> pairId demo_ops y x \<notin> fst ` set pairs')" and
    p3: "distinct (pair_ids demo_ops (heap demo_state) [0, 2]) \<longrightarrow>
              (\<forall>(a, b) \<in> set (upairs [0, 2]).
                  (movable (heap demo_state a) \<or> movable (heap demo_state b)) \<longrightarrow>
                  pairId demo_ops (heap demo_state a) (heap demo_state b) \<in> fst ` set demo_pairs \<longrightarrow>
                  \<not> Overlaps demo_ops (predictedAabb demo_ops (heap demo_state a) (margin demo_state))
                                (predictedAabb demo_ops (heap demo_state b) (margin demo_state)) \<longrightarrow>
                  pairId demo_ops (heap demo_state a) (heap demo_state b) \<notin> fst ` set pairs')"
    by blast
  from p1 u have c1: "4294967298 \<notin> fst ` set pairs'" by blast
  from p2 inj nb have c2: "pairId demo_ops (heap demo_state 1) (heap demo_state 0) \<notin> fst ` set pairs'"
    by blast
  from p3 dd ab mv old no
  have c3: "pairId demo_ops (heap demo_state 0) (heap demo_state 2) \<notin> fst ` set pairs'"
    by blast
  from d u inj nb dd ab mv old no r v c1 c2 c3 show ?thesis by blast
qed

subsection \<open>Only pairs with a movable body\<close>

text \<open>
  C7. The loop body does nothing for two immovable bodies: no overlap test, no insertion.
  After a pass, every identifier in the overlap table is that of a pair of the list with
  at least one movable body (which may be paired with an immovable one). When identifiers
  determine the body ids and the bodies of the list have distinct ids, the identifier of
  two immovable bodies of the list is not in the table.
\<close>

theorem broadphase_movable_only:
  assumes "distinct (map fst pairs)"
  shows "(\<not> movable (heap st a) \<and> \<not> movable (heap st b) \<longrightarrow>
            broadphase_pair E (margin st) (heap st) a b ps = ps)
       \<and> (\<exists>pairs'. broadphase E px (map BodyPtr as) pairs st = Inr pairs' \<and>
            (\<forall>k \<in> fst ` set pairs'.
                \<exists>(c, d) \<in> set (upairs as).
                   (movable (heap st c) \<or> movable (heap st d)) \<and> k = pairId E (heap st c) (heap st d)) \<and>
            (pairId_by_bids E \<and> inj_on (\<lambda>a. bid (heap st a)) (set as) \<longrightarrow>
               (\<forall>c \<in> set as. \<forall>d \<in> set as.
                   \<not> movable (heap st c) \<and> \<not> movable (heap st d) \<longrightarrow>
                   pairId E (heap st c) (heap st d) \<notin> fst ` set pairs')))"
proof
  show "\<not> movable (heap st a) \<and> \<not> movable (heap st b) \<longrightarrow>
            broadphase_pair E (margin st) (heap st) a b ps = ps"
    by (simp add: broadphase_pair_immovable)
next
  let ?ps = "sweep (broadphase_walk E (margin st) (heap st) (upairs as) (invalidate pairs))"
  have tested: "\<exists>(c, d) \<in> set (upairs as).
      (movable (heap st c) \<or> movable (heap st d)) \<and> k = pairId E (heap st c) (heap st d)"
    if "k \<in> fst ` set ?ps" for k
  proof -
    from broadphase_keys_tested [OF assms that]
    obtain cd where "cd \<in> set (upairs as)" "eligible (heap st) cd" "k = pid E (heap st) cd"
      by (auto simp: pair_ids_def)
    then show ?thesis
      by (cases cd) (auto simp: eligible_def pid_def)
  qed
  have never: "pairId E (heap st c) (heap st d) \<notin> fst ` set ?ps"
    if inj: "pairId_by_bids E" and bids: "inj_on (\<lambda>a. bid (heap st a)) (set as)"
      and c: "c \<in> set as" and d: "d \<in> set as"
      and im: "\<not> movable (heap st c)" "\<not> movable (heap st d)" for c d
  proof
    assume "pairId E (heap st c) (heap st d) \<in> fst ` set ?ps"
    from tested [OF this] obtain c' d' where cd': "(c', d') \<in> set (upairs as)"
      and mv: "movable (heap st c') \<or> movable (heap st d')"
      and eq: "pairId E (heap st c) (heap st d) = pairId E (heap st c') (heap st d')"
      by auto
    from inj eq have s: "{bid (heap st c), bid (heap st d)} = {bid (heap st c'), bid (heap st d')}"
      unfolding pairId_by_bids_def by blast
    from upairs_members [OF cd'] have m: "c' \<in> set as" "d' \<in> set as" by simp_all
    from s have "(bid (heap st c') = bid (heap st c) \<or> bid (heap st c') = bid (heap st d))
        \<and> (bid (heap st d') = bid (heap st c) \<or> bid (heap st d') = bid (heap st d))"
      by (auto simp: doubleton_eq_iff)
    with bids c d m have "(c' = c \<or> c' = d) \<and> (d' = c \<or> d' = d)"
      by (auto dest: inj_onD)
    with mv im show False by auto
  qed
  show "\<exists>pairs'. broadphase E px (map BodyPtr as) pairs st = Inr pairs' \<and>
            (\<forall>k \<in> fst ` set pairs'.
                \<exists>(c, d) \<in> set (upairs as).
                   (movable (heap st c) \<or> movable (heap st d)) \<and> k = pairId E (heap st c) (heap st d)) \<and>
            (pairId_by_bids E \<and> inj_on (\<lambda>a. bid (heap st a)) (set as) \<longrightarrow>
               (\<forall>c \<in> set as. \<forall>d \<in> set as.
                   \<not> movable (heap st c) \<and> \<not> movable (heap st d) \<longrightarrow>
                   pairId E (heap st c) (heap st d) \<notin> fst ` set pairs'))"
  proof (rule exI [of _ ?ps], intro conjI)
    show "broadphase E px (map BodyPtr as) pairs st = Inr ?ps" by (rule broadphase_as_walk)
    show "\<forall>k \<in> fst ` set ?ps.
                \<exists>(c, d) \<in> set (upairs as).
                   (movable (heap st c) \<or> movable (heap st d)) \<and> k = pairId E (heap st c) (heap st d)"
      using tested by blast
    show "pairId_by_bids E \<and> inj_on (\<lambda>a. bid (heap st a)) (set as) \<longrightarrow>
               (\<forall>c \<in> set as. \<forall>d \<in> set as.
                   \<not> movable (heap st c) \<and> \<not> movable (heap st d) \<longrightarrow>
                   pairId E (heap st c) (heap st d) \<notin> fst ` set ?ps)"
      using never by blast
  qed
qed

theorem broadphase_movable_only_witness:
  "distinct (map fst demo_pairs) \<and>
   \<not> movable (heap demo_state 1) \<and> \<not> movable (heap demo_state 2) \<and>
   broadphase_pair demo_ops (margin demo_state) (heap demo_state) 1 2 demo_pairs = demo_pairs \<and>
   pairId_by_bids demo_ops \<and> inj_on (\<lambda>a. bid (heap demo_state a)) (set [0, 1, 2]) \<and>
   (\<exists>pairs'. broadphase demo_ops 0 (map BodyPtr [0, 1, 2]) demo_pairs demo_state = Inr pairs' \<and>
      (\<forall>k \<in> fst ` set pairs'.
          \<exists>(c, d) \<in> set (upairs [0, 1, 2]).
             (movable (heap demo_state c) \<or> movable (heap demo_state d)) \<and>
             k = pairId demo_ops (heap demo_state c) (heap demo_state d)) \<and>
      4294967298 \<in> fst ` set pairs' \<and>
      pairId demo_ops (heap demo_state 1) (heap demo_state 2) \<notin> fst ` set pairs')"
proof -
  have d: "distinct (map fst demo_pairs)" by (simp add: demo_pairs_def)
  have i1: "\<not> movable (heap demo_state 1)" by (simp add: demo_defs)
  have i2: "\<not> movable (heap demo_state 2)" by (simp add: demo_defs)
  have inj: "pairId_by_bids demo_ops" by (rule demo_pairId_by_bids)
  have bids: "inj_on (\<lambda>a. bid (heap demo_state a)) (set [0, 1, 2])" by (rule demo_inj_bids)
  have m1: "(1::addr) \<in> set [0, 1, 2]" by simp
  have m2: "(2::addr) \<in> set [0, 1, 2]" by simp
  from broadphase_movable_only [OF d, of demo_state 1 2 demo_ops demo_pairs 0 "[0, 1, 2]"]
  have s: "\<not> movable (heap demo_state 1) \<and> \<not> movable (heap demo_state 2) \<longrightarrow>
            broadphase_pair demo_ops (margin demo_state) (heap demo_state) 1 2 demo_pairs = demo_pairs"
    and "\<exists>pairs'. broadphase demo_ops 0 (map BodyPtr [0, 1, 2]) demo_pairs demo_state = Inr pairs' \<and>
            (\<forall>k \<in> fst ` set pairs'.
                \<exists>(c, d) \<in> set (upairs [0, 1, 2]).
                   (movable (heap demo_state c) \<or> movable (heap demo_state d)) \<and>
                   k = pairId demo_ops (heap demo_state c) (heap demo_state d)) \<and>
            (pairId_by_bids demo_ops \<and> inj_on (\<lambda>a. bid (heap demo_state a)) (set [0, 1, 2]) \<longrightarrow>
               (\<forall>c \<in> set [0, 1, 2]. \<forall>d \<in> set [0, 1, 2].
                   \<not> movable (heap demo_state c) \<and> \<not> movable (heap demo_state d) \<longrightarrow>
                   pairId demo_ops (heap demo_state c) (heap demo_state d) \<notin> fst ` set pairs'))"
    by blast+
  then obtain pairs' where
    r: "broadphase demo_ops 0 (map BodyPtr [0, 1, 2]) demo_pairs demo_state = Inr pairs'" and
    t: "\<forall>k \<in> fst ` set pairs'.
                \<exists>(c, d) \<in> set (upairs [0, 1, 2]).
                   (movable (heap demo_state c) \<or> movable (heap demo_state d)) \<and>
                   k = pairId demo_ops (heap demo_state c) (heap demo_state d)" and
    n: "pairId_by_bids demo_ops \<and> inj_on (\<lambda>a. bid (heap demo_state a)) (set [0, 1, 2]) \<longrightarrow>
               (\<forall>c \<in> set [0, 1, 2]. \<forall>d \<in> set [0, 1, 2].
                   \<not> movable (heap demo_state c) \<and> \<not> movable (heap demo_state d) \<longrightarrow>
                   pairId demo_ops (heap demo_state c) (heap demo_state d) \<notin> fst ` set pairs')"
    by blast
  from n inj bids m1 m2 i1 i2
  have c: "pairId demo_ops (heap demo_state 1) (heap demo_state 2) \<notin> fst ` set pairs'"
    by blast
  have "broadphase demo_ops 0 (map BodyPtr [0, 1, 2]) demo_pairs demo_state
          = Inr [(4294967298, demo_pair\<lparr>bodyB := 1\<rparr>)]"
    by (simp add: broadphase_def broadphase_pair_def Let_def demo_pairs_def demo_pair_def demo_defs)
  with r have k: "4294967298 \<in> fst ` set pairs'" by simp
  from s i1 i2 have b: "broadphase_pair demo_ops (margin demo_state) (heap demo_state) 1 2 demo_pairs = demo_pairs"
    by blast
  from d i1 i2 b inj bids r t k c show ?thesis by blast
qed

section \<open>Narrowphase\<close>















end
